theory Spec2Isabelle
  imports Main
begin

section \<open>Data model of \<^verbatim>\<open>chaoslib/control/__init__.py\<close>\<close>

text \<open>
  The module works on the experiment document, a tree of Python dicts and lists. Each dict
  is a record of the keys this module reads; a key that may be absent is an \<open>option\<close>
  field (\<open>None\<close>: the key is not in the dict). \<open>deepcopy\<close> is the identity on these
  values, and "a copy of \<open>c\<close>" is a list element equal to \<open>c\<close>.

  A control's \<open>scope\<close> is a string or a list of strings. A provider is a dict; only its
  \<open>"type"\<close> entry is read here, so it is an association list from keys to strings.
\<close>

datatype scope_decl = ScopeStr string | ScopeList "string list"

type_synonym provider = "(string \<times> string) list"

record control =
  c_name :: "string option"
  c_ref :: "string option"
  c_automatic :: "bool option"
  c_scope :: "scope_decl option"
  c_provider :: "provider option"

record activity =
  a_controls :: "control list option"

record hypothesis =
  h_probes :: "activity list option"
  h_controls :: "control list option"

record "experiment" =
  e_controls :: "control list option"
  e_hypothesis :: "hypothesis option"
  e_method :: "activity list option"
  e_rollbacks :: "activity list option"

text \<open>
  The exceptions that cross this module. \<open>OtherError\<close> is any other exception that derives
  from \<open>Exception\<close>; \<open>SystemExit\<close> and \<open>KeyboardInterrupt\<close> derive from
  \<open>BaseException\<close> only, and \<open>OtherBaseException\<close> is any other such exception.
\<close>

datatype exn = KeyError | InterruptExecution | InvalidControl | InvalidActivity | OtherError
  | SystemExit | KeyboardInterrupt | OtherBaseException

text \<open>\<open>isinstance(x, Exception)\<close>\<close>

fun is_Exception :: "exn \<Rightarrow> bool" where
  "is_Exception SystemExit = False"
| "is_Exception KeyboardInterrupt = False"
| "is_Exception OtherBaseException = False"
| "is_Exception x = True"

text \<open>\<open>d.get(key, [])\<close> for a list-valued key.\<close>

fun get_list :: "'a list option \<Rightarrow> 'a list" where
  "get_list None = []"
| "get_list (Some xs) = xs"

text \<open>
  The \<open>context\<close> argument of the module's functions is a dict of the experiment tree: the
  experiment itself (levels experiment, method and rollback), its steady-state hypothesis,
  or one activity. It is named here by its place in the tree, so that a write to the
  context's \<open>controls\<close> list is a write to the experiment. The document is a tree: two
  places never hold the same list object, as after loading it from JSON or YAML.
\<close>

datatype "context" = CtxExperiment | CtxHypothesis | CtxProbe nat | CtxMethod nat | CtxRollback nat

text \<open>\<open>context.get("controls", [])\<close>; a place that does not exist has no key.\<close>

fun activity_controls_at :: "activity list \<Rightarrow> nat \<Rightarrow> control list" where
  "activity_controls_at acts i = (if i < length acts then get_list (a_controls (acts ! i)) else [])"

fun context_controls :: "experiment \<Rightarrow> context \<Rightarrow> control list" where
  "context_controls e CtxExperiment = get_list (e_controls e)"
| "context_controls e CtxHypothesis =
     (case e_hypothesis e of None \<Rightarrow> [] | Some h \<Rightarrow> get_list (h_controls h))"
| "context_controls e (CtxProbe i) =
     (case e_hypothesis e of None \<Rightarrow> []
      | Some h \<Rightarrow> activity_controls_at (get_list (h_probes h)) i)"
| "context_controls e (CtxMethod i) = activity_controls_at (get_list (e_method e)) i"
| "context_controls e (CtxRollback i) = activity_controls_at (get_list (e_rollbacks e)) i"

text \<open>
  The new contents of the context's \<open>controls\<close> list object after a write to it. Only a
  list that exists is ever written (the code appends to a non-empty list only).
\<close>

fun set_activity_controls :: "activity list option \<Rightarrow> nat \<Rightarrow> control list \<Rightarrow> activity list option" where
  "set_activity_controls None i cs = None"
| "set_activity_controls (Some acts) i cs =
     (if i < length acts then Some (acts[i := (acts ! i)\<lparr>a_controls := Some cs\<rparr>])
      else Some acts)"

fun set_context_controls :: "experiment \<Rightarrow> context \<Rightarrow> control list \<Rightarrow> experiment" where
  "set_context_controls e CtxExperiment cs = e\<lparr>e_controls := Some cs\<rparr>"
| "set_context_controls e CtxHypothesis cs =
     (case e_hypothesis e of None \<Rightarrow> e
      | Some h \<Rightarrow> e\<lparr>e_hypothesis := Some (h\<lparr>h_controls := Some cs\<rparr>)\<rparr>)"
| "set_context_controls e (CtxProbe i) cs =
     (case e_hypothesis e of None \<Rightarrow> e
      | Some h \<Rightarrow> e\<lparr>e_hypothesis := Some (h\<lparr>h_probes := set_activity_controls (h_probes h) i cs\<rparr>)\<rparr>)"
| "set_context_controls e (CtxMethod i) cs =
     e\<lparr>e_method := set_activity_controls (e_method e) i cs\<rparr>"
| "set_context_controls e (CtxRollback i) cs =
     e\<lparr>e_rollbacks := set_activity_controls (e_rollbacks e) i cs\<rparr>"

text \<open>\<open>controls.append(x)\<close>, where \<open>controls\<close> is the context's list object.\<close>

definition context_append :: "experiment \<Rightarrow> context \<Rightarrow> control \<Rightarrow> experiment" where
  "context_append e ctx x = set_context_controls e ctx (context_controls e ctx @ [x])"

section \<open>\<^verbatim>\<open>get_context_controls\<close>\<close>

text \<open>\<open>experiment.get("controls", [])\<close>\<close>

definition top_level_controls :: "experiment \<Rightarrow> control list" where
  "top_level_controls e = get_list (e_controls e)"

text \<open>\<open>c.get("automatic", True)\<close>\<close>

definition is_automatic :: "control \<Rightarrow> bool" where
  "is_automatic c = (case c_automatic c of None \<Rightarrow> True | Some b \<Rightarrow> b)"

text \<open>
  Lines 186-189, the loop of the \<open>ref\<close> branch: the first top-level control whose name is
  the ref. \<open>top_level_control["name"]\<close> raises \<open>KeyError\<close> on a control without a name.
  Nothing is appended while this loop runs, so it reads the list as it is at its start.
\<close>

fun resolve_ref :: "string \<Rightarrow> control list \<Rightarrow> exn + control option" where
  "resolve_ref r [] = Inr None"
| "resolve_ref r (t # ts) =
     (case c_name t of
        None \<Rightarrow> Inl KeyError
      | Some n \<Rightarrow> if r = n then Inr (Some t) else resolve_ref r ts)"

text \<open>
  Lines 191-196, the loop of the other branch. It appends to the context's list while it
  iterates over the top-level list; when the context is the experiment these are the same
  list object, so the iteration is by index over the list as it is at every step, as
  Python's list iterator does. \<open>None\<close> is a loop that does not end.
\<close>

partial_function (option) inherit_loop :: "context \<Rightarrow> control \<Rightarrow> nat \<Rightarrow> experiment \<Rightarrow> experiment option" where
  "inherit_loop ctx c i e =
     (let tops = top_level_controls e in
      if i < length tops then
        (let tc = tops ! i in
         if c_name c = c_name tc then Some e
         else inherit_loop ctx c (Suc i)
                (if is_automatic tc then context_append e ctx tc else e))
      else Some e)"

declare inherit_loop.simps [code]

text \<open>
  Lines 184-196, the loop over \<open>controls.copy()\<close>: the list of local entries as it is when
  the loop starts. The result is the exception raised, if any, and the experiment as the
  appends left it.
\<close>

fun merge_loop :: "context \<Rightarrow> control list \<Rightarrow> experiment \<Rightarrow> ((exn + unit) \<times> experiment) option" where
  "merge_loop ctx [] e = Some (Inr (), e)"
| "merge_loop ctx (c # cs) e =
     (case c_ref c of
        Some r \<Rightarrow>
          (case resolve_ref r (top_level_controls e) of
             Inl x \<Rightarrow> Some (Inl x, e)
           | Inr None \<Rightarrow> merge_loop ctx cs e
           | Inr (Some t) \<Rightarrow> merge_loop ctx cs (context_append e ctx t))
      | None \<Rightarrow>
          (case inherit_loop ctx c 0 e of
             None \<Rightarrow> None
           | Some e' \<Rightarrow> merge_loop ctx cs e'))"

text \<open>
  The function returns its list object \<open>controls\<close>: when the context has local entries,
  that is the context's own list, read after the loop.
\<close>

definition get_context_controls :: "experiment \<Rightarrow> context \<Rightarrow> ((exn + control list) \<times> experiment) option" where
  "get_context_controls e ctx =
     (let tops = top_level_controls e;
          controls = context_controls e ctx
      in if controls = [] \<and> tops = [] then Some (Inr [], e)
         else if controls = [] \<and> tops \<noteq> [] then Some (Inr (filter is_automatic tops), e)
         else (case merge_loop ctx controls e of
                 None \<Rightarrow> None
               | Some (Inl x, e') \<Rightarrow> Some (Inl x, e')
               | Some (Inr u, e') \<Rightarrow> Some (Inr (context_controls e' ctx), e')))"

section \<open>\<^verbatim>\<open>apply_controls\<close>\<close>

text \<open>
  \<open>apply_python_control\<close>, \<open>initialize_control\<close>, \<open>cleanup_control\<close> and
  \<open>validate_python_control\<close> live in \<open>chaoslib.control.python\<close>, which runs the user's
  control module. They are parameters of the model: a call returns or raises. What a call
  does may depend on the calls made before it, so it is a function of the earlier calls and
  of its own arguments. The providers are taken not to rewrite the \<open>controls\<close> lists of the
  experiment; the configuration and the secrets are passed on unchanged and are left out.
\<close>

datatype outcome = Returns | Raises exn

text \<open>
  One call of \<open>apply_python_control(level, control, context, state, ...)\<close>. The state is
  the journal or run handed to the post controls, of any type \<open>'j\<close>.
\<close>

record 'j call =
  call_level :: string
  call_control :: control
  call_context :: "context"
  call_state :: "'j option"

type_synonym 'j python_control = "'j call list \<Rightarrow> 'j call \<Rightarrow> outcome"

text \<open>\<open>not target_scope\<close>: the key is absent, or the string or the list is empty.\<close>

fun scope_falsy :: "scope_decl option \<Rightarrow> bool" where
  "scope_falsy None = True"
| "scope_falsy (Some (ScopeStr s)) = (s = [])"
| "scope_falsy (Some (ScopeList l)) = (l = [])"

text \<open>Lines 224-225: a scope that is not a list becomes the list of that one scope.\<close>

fun target_scope_list :: "scope_decl option \<Rightarrow> string list" where
  "target_scope_list None = []"
| "target_scope_list (Some (ScopeStr s)) = [s]"
| "target_scope_list (Some (ScopeList l)) = l"

text \<open>\<open>control.get("provider", {}).get("type")\<close>\<close>

definition provider_type :: "control \<Rightarrow> string option" where
  "provider_type c = map_of (case c_provider c of None \<Rightarrow> [] | Some p \<Rightarrow> p) ''type''"

text \<open>
  The controls the loop of lines 218-251 calls the provider for: those that pass the
  two \<open>continue\<close> tests and whose provider type is \<open>"python"\<close>.
\<close>

definition is_applied :: "string \<Rightarrow> control \<Rightarrow> bool" where
  "is_applied scope c \<longleftrightarrow>
     \<not> scope_falsy (c_scope c) \<and> scope \<in> set (target_scope_list (c_scope c)) \<and>
     provider_type c = Some ''python''"

text \<open>
  Lines 236-250, the \<open>try\<close> statement around the provider call: the exception that leaves
  it, if any. The first clause raises \<open>InterruptExecution\<close> again, the second catches
  (and logs) what derives from \<open>Exception\<close>, and no clause catches the rest.
\<close>

fun propagated :: "outcome \<Rightarrow> exn option" where
  "propagated Returns = None"
| "propagated (Raises x) =
     (if x = InterruptExecution then Some x
      else if is_Exception x then None
      else Some x)"

text \<open>
  Lines 218-251. The variable \<open>level\<close> is assigned inside the loop (line 238), so it is
  threaded through the iterations. The trace \<open>tr\<close> lists the provider calls made so far.
  Logging is left out.
\<close>

fun apply_loop :: "'j python_control \<Rightarrow> context \<Rightarrow> string \<Rightarrow> 'j option \<Rightarrow> string \<Rightarrow> control list \<Rightarrow>
    'j call list \<Rightarrow> (exn + unit) \<times> 'j call list" where
  "apply_loop apc ctx scope state level [] tr = (Inr (), tr)"
| "apply_loop apc ctx scope state level (c # cs) tr =
     (if scope_falsy (c_scope c) then apply_loop apc ctx scope state level cs tr
      else if scope \<notin> set (target_scope_list (c_scope c)) then apply_loop apc ctx scope state level cs tr
      else if provider_type c = Some ''python'' then
        (let level' = level @ ''-'' @ scope;
             k = \<lparr>call_level = level', call_control = c, call_context = ctx, call_state = state\<rparr>
         in case propagated (apc tr k) of
              Some x \<Rightarrow> (Inl x, tr @ [k])
            | None \<Rightarrow> apply_loop apc ctx scope state level' cs (tr @ [k]))
      else apply_loop apc ctx scope state level cs tr)"

definition apply_controls :: "'j python_control \<Rightarrow> string \<Rightarrow> experiment \<Rightarrow> context \<Rightarrow> string \<Rightarrow> 'j option \<Rightarrow>
    'j call list \<Rightarrow> ((exn + unit) \<times> experiment \<times> 'j call list) option" where
  "apply_controls apc level e ctx scope state tr =
     (case get_context_controls e ctx of
        None \<Rightarrow> None
      | Some (Inl x, e') \<Rightarrow> Some (Inl x, e', tr)
      | Some (Inr controls, e') \<Rightarrow>
          if controls = [] then Some (Inr (), e', tr)
          else (case apply_loop apc ctx scope state level controls tr of
                  (r, tr') \<Rightarrow> Some (r, e', tr')))"

section \<open>The class \<^verbatim>\<open>Control\<close> and the context manager \<^verbatim>\<open>controls\<close>\<close>

text \<open>
  \<open>begin\<close> sets \<open>self.state\<close> to \<open>None\<close> and applies the pre controls; \<open>end\<close> hands
  \<open>self.state\<close> to the post controls.
\<close>

definition Control_begin :: "'j python_control \<Rightarrow> string \<Rightarrow> experiment \<Rightarrow> context \<Rightarrow>
    'j call list \<Rightarrow> ((exn + unit) \<times> experiment \<times> 'j call list) option" where
  "Control_begin apc level e ctx tr = apply_controls apc level e ctx ''pre'' None tr"

definition Control_end :: "'j python_control \<Rightarrow> string \<Rightarrow> experiment \<Rightarrow> context \<Rightarrow> 'j option \<Rightarrow>
    'j call list \<Rightarrow> ((exn + unit) \<times> experiment \<times> 'j call list) option" where
  "Control_end apc level e ctx state tr = apply_controls apc level e ctx ''post'' state tr"

text \<open>
  The body of the \<open>with\<close> block is a parameter: from the experiment and the trace as
  \<open>begin\<close> left them it returns or raises, leaves the state it gave to \<open>with_state\<close>
  (\<open>None\<close> when it gave none), and may have run controls of its own. The \<open>finally\<close> clause
  runs \<open>end\<close> on every path; an exception of \<open>end\<close> replaces the one in flight.
\<close>

type_synonym 'j block = "experiment \<Rightarrow> 'j call list \<Rightarrow>
    ((exn + unit) \<times> 'j option \<times> experiment \<times> 'j call list) option"

definition controls :: "'j python_control \<Rightarrow> string \<Rightarrow> experiment \<Rightarrow> context \<Rightarrow> 'j block \<Rightarrow>
    'j call list \<Rightarrow> ((exn + unit) \<times> experiment \<times> 'j call list) option" where
  "controls apc level e ctx body tr =
     (case Control_begin apc level e ctx tr of
        None \<Rightarrow> None
      | Some (Inl x, e1, tr1) \<Rightarrow>
          (case Control_end apc level e1 ctx None tr1 of
             None \<Rightarrow> None
           | Some (Inl y, e2, tr2) \<Rightarrow> Some (Inl y, e2, tr2)
           | Some (Inr u, e2, tr2) \<Rightarrow> Some (Inl x, e2, tr2))
      | Some (Inr u, e1, tr1) \<Rightarrow>
          (case body e1 tr1 of
             None \<Rightarrow> None
           | Some (rb, st, eb, trb) \<Rightarrow>
               (case Control_end apc level eb ctx st trb of
                  None \<Rightarrow> None
                | Some (Inl y, e2, tr2) \<Rightarrow> Some (Inl y, e2, tr2)
                | Some (Inr u, e2, tr2) \<Rightarrow> Some (rb, e2, tr2))))"

section \<open>\<^verbatim>\<open>get_controls\<close>, initialization, cleanup and validation\<close>

definition get_all_activities :: "experiment \<Rightarrow> activity list" where
  "get_all_activities e =
     (case e_hypothesis e of None \<Rightarrow> [] | Some h \<Rightarrow> get_list (h_probes h))
     @ get_list (e_method e) @ get_list (e_rollbacks e)"

definition get_controls :: "experiment \<Rightarrow> control list" where
  "get_controls e =
     get_list (e_controls e)
     @ (case e_hypothesis e of None \<Rightarrow> [] | Some h \<Rightarrow> get_list (h_controls h))
     @ concat (map (\<lambda>a. get_list (a_controls a)) (get_all_activities e))"

text \<open>
  Lines 39-49. \<open>seen\<close> is the list of names met so far, \<open>tr\<close> the controls
  \<open>initialize_control\<close> was called with. \<open>provider["type"]\<close> raises \<open>KeyError\<close> on a
  provider that is not empty and has no type; an exception of the provider is not caught.
\<close>

type_synonym provider_call = "control list \<Rightarrow> control \<Rightarrow> outcome"

fun initialize_loop :: "provider_call \<Rightarrow> control list \<Rightarrow> string list \<Rightarrow> control list \<Rightarrow>
    (exn + unit) \<times> control list" where
  "initialize_loop ic [] seen tr = (Inr (), tr)"
| "initialize_loop ic (c # cs) seen tr =
     (case c_name c of
        None \<Rightarrow> initialize_loop ic cs seen tr
      | Some n \<Rightarrow>
          if n = [] \<or> n \<in> set seen then initialize_loop ic cs seen tr
          else (case c_provider c of
                  None \<Rightarrow> initialize_loop ic cs (seen @ [n]) tr
                | Some p \<Rightarrow>
                    if p = [] then initialize_loop ic cs (seen @ [n]) tr
                    else (case map_of p ''type'' of
                            None \<Rightarrow> (Inl KeyError, tr)
                          | Some t \<Rightarrow>
                              if t = ''python'' then
                                (case ic tr c of
                                   Raises x \<Rightarrow> (Inl x, tr @ [c])
                                 | Returns \<Rightarrow> initialize_loop ic cs (seen @ [n]) (tr @ [c]))
                              else initialize_loop ic cs (seen @ [n]) tr)))"

definition initialize_controls :: "provider_call \<Rightarrow> experiment \<Rightarrow> (exn + unit) \<times> control list" where
  "initialize_controls ic e = initialize_loop ic (get_controls e) [] []"

text \<open>Lines 65-75, the same loop around \<open>cleanup_control\<close>.\<close>

fun cleanup_loop :: "provider_call \<Rightarrow> control list \<Rightarrow> string list \<Rightarrow> control list \<Rightarrow>
    (exn + unit) \<times> control list" where
  "cleanup_loop cc [] seen tr = (Inr (), tr)"
| "cleanup_loop cc (c # cs) seen tr =
     (case c_name c of
        None \<Rightarrow> cleanup_loop cc cs seen tr
      | Some n \<Rightarrow>
          if n = [] \<or> n \<in> set seen then cleanup_loop cc cs seen tr
          else (case c_provider c of
                  None \<Rightarrow> cleanup_loop cc cs (seen @ [n]) tr
                | Some p \<Rightarrow>
                    if p = [] then cleanup_loop cc cs (seen @ [n]) tr
                    else (case map_of p ''type'' of
                            None \<Rightarrow> (Inl KeyError, tr)
                          | Some t \<Rightarrow>
                              if t = ''python'' then
                                (case cc tr c of
                                   Raises x \<Rightarrow> (Inl x, tr @ [c])
                                 | Returns \<Rightarrow> cleanup_loop cc cs (seen @ [n]) (tr @ [c]))
                              else cleanup_loop cc cs (seen @ [n]) tr)))"

definition cleanup_controls :: "provider_call \<Rightarrow> experiment \<Rightarrow> (exn + unit) \<times> control list" where
  "cleanup_controls cc e = cleanup_loop cc (get_controls e) [] []"

text \<open>
  Lines 84-86, the list comprehension: the names of the controls that carry no \<open>ref\<close>;
  \<open>c["name"]\<close> raises \<open>KeyError\<close> on one without a name.
\<close>

fun references_of :: "control list \<Rightarrow> exn + string list" where
  "references_of [] = Inr []"
| "references_of (c # cs) =
     (if c_ref c = None then
        (case c_name c of
           None \<Rightarrow> Inl KeyError
         | Some n \<Rightarrow> (case references_of cs of Inl x \<Rightarrow> Inl x | Inr ns \<Rightarrow> Inr (n # ns)))
      else references_of cs)"

text \<open>Lines 87-91.\<close>

fun check_references :: "string list \<Rightarrow> control list \<Rightarrow> exn + unit" where
  "check_references references [] = Inr ()"
| "check_references references (c # cs) =
     (case c_ref c of
        None \<Rightarrow> check_references references cs
      | Some r \<Rightarrow>
          if r \<notin> set references then Inl InvalidControl
          else check_references references cs)"

text \<open>Lines 93-96.\<close>

fun validate_providers :: "(control \<Rightarrow> outcome) \<Rightarrow> control list \<Rightarrow> exn + unit" where
  "validate_providers vpc [] = Inr ()"
| "validate_providers vpc (c # cs) =
     (if provider_type c = Some ''python'' then
        (case vpc c of
           Raises x \<Rightarrow> Inl x
         | Returns \<Rightarrow> validate_providers vpc cs)
      else validate_providers vpc cs)"

definition validate_controls :: "(control \<Rightarrow> outcome) \<Rightarrow> experiment \<Rightarrow> exn + unit" where
  "validate_controls vpc e =
     (case references_of (get_controls e) of
        Inl x \<Rightarrow> Inl x
      | Inr references \<Rightarrow>
          (case check_references references (get_controls e) of
             Inl x \<Rightarrow> Inl x
           | Inr u \<Rightarrow> validate_providers vpc (get_controls e)))"

section \<open>Closed forms of the loops of \<^verbatim>\<open>get_context_controls\<close>\<close>

text \<open>
  What the loops of lines 184-196 append, as functions of the top-level list \<open>tops\<close> as it
  is when \<open>get_context_controls\<close> starts. They are not part of the model: the lemmas below
  prove that the loops compute them, also when the context is the experiment and the loops
  read the list they append to.

  For a local entry without \<open>ref\<close>, the inner loop appends the automatic top-level controls
  that stand before the first top-level control of the entry's name.
\<close>

definition inherited_for :: "control list \<Rightarrow> control \<Rightarrow> control list" where
  "inherited_for tops c = filter is_automatic (takeWhile (\<lambda>t. c_name t \<noteq> c_name c) tops)"

text \<open>The exception of the whole loop, if any, and all it appended before.\<close>

fun merge_pure :: "control list \<Rightarrow> control list \<Rightarrow> (exn + unit) \<times> control list" where
  "merge_pure tops [] = (Inr (), [])"
| "merge_pure tops (c # cs) =
     (case c_ref c of
        Some r \<Rightarrow>
          (case resolve_ref r tops of
             Inl x \<Rightarrow> (Inl x, [])
           | Inr None \<Rightarrow> merge_pure tops cs
           | Inr (Some t) \<Rightarrow> (fst (merge_pure tops cs), t # snd (merge_pure tops cs)))
      | None \<Rightarrow> (fst (merge_pure tops cs), inherited_for tops c @ snd (merge_pure tops cs)))"

text \<open>
  What one local entry appends when no exception is raised: for an entry with a \<open>ref\<close>,
  the first top-level control of that name, or nothing when there is none.
\<close>

definition appended_for :: "control list \<Rightarrow> control \<Rightarrow> control list" where
  "appended_for tops c =
     (case c_ref c of
        Some r \<Rightarrow> (case find (\<lambda>t. c_name t = Some r) tops of None \<Rightarrow> [] | Some t \<Rightarrow> [t])
      | None \<Rightarrow> inherited_for tops c)"

section \<open>Example experiments\<close>

text \<open>Controls and experiments the theorems below are evaluated on.\<close>

definition top_control :: "string \<Rightarrow> control" where
  "top_control n = \<lparr>c_name = Some n, c_ref = None, c_automatic = None,
     c_scope = Some (ScopeList [''pre'', ''post'']),
     c_provider = Some [(''type'', ''python''), (''module'', ''top'')]\<rparr>"

definition local_control :: "string \<Rightarrow> control" where
  "local_control n = \<lparr>c_name = Some n, c_ref = None, c_automatic = None,
     c_scope = Some (ScopeStr ''pre''),
     c_provider = Some [(''type'', ''python''), (''module'', ''local'')]\<rparr>"

definition ref_entry :: "string \<Rightarrow> control" where
  "ref_entry r = \<lparr>c_name = None, c_ref = Some r, c_automatic = None, c_scope = None,
     c_provider = None\<rparr>"

definition c1_experiment :: "experiment" where
  "c1_experiment = \<lparr>
     e_controls = Some [top_control ''a'', top_control ''b''],
     e_hypothesis = None,
     e_method = Some [\<lparr>a_controls = Some [local_control ''a'', local_control ''b'']\<rparr>,
                      \<lparr>a_controls = Some [local_control ''x'', local_control ''y'']\<rparr>,
                      \<lparr>a_controls = Some [local_control ''a'']\<rparr>],
     e_rollbacks = None\<rparr>"

definition c2_experiment :: "experiment" where
  "c2_experiment = \<lparr>
     e_controls = Some [top_control ''a''],
     e_hypothesis = None,
     e_method = Some [\<lparr>a_controls = Some [local_control ''x'']\<rparr>],
     e_rollbacks = None\<rparr>"

definition c2_experiment_after :: "experiment" where
  "c2_experiment_after = \<lparr>
     e_controls = Some [top_control ''a''],
     e_hypothesis = None,
     e_method = Some [\<lparr>a_controls = Some [local_control ''x'', top_control ''a'']\<rparr>],
     e_rollbacks = None\<rparr>"

definition c3_experiment :: "experiment" where
  "c3_experiment = \<lparr>
     e_controls = Some [top_control ''a'', top_control ''b'', top_control ''c'', top_control ''d''],
     e_hypothesis = None,
     e_method = Some [\<lparr>a_controls = None\<rparr>],
     e_rollbacks = None\<rparr>"

text \<open>A provider whose control \<open>a\<close> fails and whose control \<open>c\<close> interrupts.\<close>

definition c3_provider :: "unit python_control" where
  "c3_provider tr k =
     (if c_name (call_control k) = Some ''a'' then Raises OtherError
      else if c_name (call_control k) = Some ''c'' then Raises InterruptExecution
      else Returns)"

text \<open>A provider whose control \<open>a\<close> exits the interpreter.\<close>

definition c3_exit_provider :: "unit python_control" where
  "c3_exit_provider tr k =
     (if c_name (call_control k) = Some ''a'' then Raises SystemExit else Returns)"

definition c4_experiment :: "experiment" where
  "c4_experiment = \<lparr>
     e_controls = Some [top_control ''a''],
     e_hypothesis = None,
     e_method = Some [\<lparr>a_controls = Some [ref_entry ''a'']\<rparr>,
                      \<lparr>a_controls = Some [ref_entry ''zz'']\<rparr>],
     e_rollbacks = None\<rparr>"

definition c5_experiment :: "experiment" where
  "c5_experiment = \<lparr>
     e_controls = Some [top_control ''a'', (top_control ''m'')\<lparr>c_automatic := Some False\<rparr>,
                        (top_control ''b'')\<lparr>c_automatic := Some True\<rparr>],
     e_hypothesis = Some \<lparr>h_probes = Some [\<lparr>a_controls = None\<rparr>], h_controls = None\<rparr>,
     e_method = Some [\<lparr>a_controls = Some [local_control ''x'']\<rparr>],
     e_rollbacks = None\<rparr>"

definition c6_experiment :: "experiment" where
  "c6_experiment = \<lparr>
     e_controls = Some [top_control ''a'', top_control ''b''],
     e_hypothesis = None,
     e_method = Some [\<lparr>a_controls = None\<rparr>],
     e_rollbacks = None\<rparr>"

definition c7_experiment :: "experiment" where
  "c7_experiment = \<lparr>
     e_controls = None,
     e_hypothesis = None,
     e_method = Some [\<lparr>a_controls = Some [local_control ''a'']\<rparr>,
                      \<lparr>a_controls = Some [ref_entry ''a'']\<rparr>],
     e_rollbacks = None\<rparr>"

definition c8_experiment :: "experiment" where
  "c8_experiment = \<lparr>
     e_controls = Some [top_control ''a'', top_control ''b''],
     e_hypothesis = Some \<lparr>h_probes = Some [\<lparr>a_controls = Some [local_control ''b'']\<rparr>],
                           h_controls = Some [local_control ''a'']\<rparr>,
     e_method = Some [\<lparr>a_controls = Some [local_control ''x'', ref_entry ''a'']\<rparr>,
                      \<lparr>a_controls = Some [local_control ''x'']\<rparr>],
     e_rollbacks = Some [\<lparr>a_controls = Some [top_control ''a'']\<rparr>]\<rparr>"

definition c9_experiment :: "experiment" where
  "c9_experiment = \<lparr>
     e_controls = Some [(top_control ''a'')\<lparr>c_scope := None\<rparr>, top_control ''b''],
     e_hypothesis = None,
     e_method = Some [\<lparr>a_controls = None\<rparr>],
     e_rollbacks = None\<rparr>"

definition c10_experiment :: "experiment" where
  "c10_experiment = \<lparr>
     e_controls = Some [top_control ''a''],
     e_hypothesis = None,
     e_method = None,
     e_rollbacks = None\<rparr>"

text \<open>A provider that interrupts every pre control of the experiment level.\<close>

definition c10_provider :: "unit python_control" where
  "c10_provider tr k = (if call_level k = ''experiment-pre'' then Raises InterruptExecution else Returns)"

text \<open>A block that is never reached in the example: it would fail.\<close>

definition c10_block :: "unit block" where
  "c10_block e tr = Some (Inl OtherError, None, e, tr)"

section \<open>Reading and writing a context's list\<close>

lemma activity_controls_at_set:
  "activity_controls_at (get_list acts) i \<noteq> [] \<Longrightarrow>
   activity_controls_at (get_list (set_activity_controls acts i cs)) i = cs"
  by (cases acts) (auto split: if_splits)

lemma set_activity_controls_twice:
  "set_activity_controls (set_activity_controls acts i a) i b = set_activity_controls acts i b"
  by (cases acts) auto

lemma set_activity_controls_same:
  "activity_controls_at (get_list acts) i \<noteq> [] \<Longrightarrow>
   set_activity_controls acts i (activity_controls_at (get_list acts) i) = acts"
proof (cases acts)
  case None
  then show ?thesis by simp
next
  case (Some xs)
  assume ne: "activity_controls_at (get_list acts) i \<noteq> []"
  with Some have i: "i < length xs" and g: "get_list (a_controls (xs ! i)) \<noteq> []"
    by (auto split: if_splits)
  from g obtain cs where cs: "a_controls (xs ! i) = Some cs" by (cases "a_controls (xs ! i)") auto
  have "(xs ! i)\<lparr>a_controls := Some cs\<rparr> = xs ! i" using cs by simp
  then show ?thesis using Some i cs by (simp add: list_update_same_conv)
qed

lemma context_controls_set:
  "context_controls e ctx \<noteq> [] \<Longrightarrow> context_controls (set_context_controls e ctx cs) ctx = cs"
  by (cases ctx) (auto simp: activity_controls_at_set simp del: activity_controls_at.simps split: option.splits)

lemma top_level_set_other:
  "ctx \<noteq> CtxExperiment \<Longrightarrow> top_level_controls (set_context_controls e ctx cs) = top_level_controls e"
  by (cases ctx) (auto simp: top_level_controls_def split: option.splits)

lemma top_level_set_experiment:
  "top_level_controls (set_context_controls e CtxExperiment cs) = cs"
  by (simp add: top_level_controls_def)

lemma set_context_controls_twice:
  "set_context_controls (set_context_controls e ctx a) ctx b = set_context_controls e ctx b"
  by (cases ctx) (auto simp: set_activity_controls_twice split: option.splits)

lemma get_list_Some: "get_list x \<noteq> [] \<Longrightarrow> Some (get_list x) = x"
  by (cases x) auto

lemma set_context_controls_same:
  "context_controls e ctx \<noteq> [] \<Longrightarrow> set_context_controls e ctx (context_controls e ctx) = e"
  by (cases ctx) (auto simp: set_activity_controls_same get_list_Some simp del: activity_controls_at.simps split: option.splits)

section \<open>The loops compute their closed forms\<close>

lemma set_context_controls_id:
  "context_controls e ctx = cur \<Longrightarrow> cur \<noteq> [] \<Longrightarrow> set_context_controls e ctx cur = e"
  using set_context_controls_same by blast

lemma inherited_for_Cons:
  "inherited_for (t # ts) c =
     (if c_name c = c_name t then [] else (if is_automatic t then [t] else []) @ inherited_for ts c)"
  by (auto simp: inherited_for_def)

lemma inherited_for_subset: "set (inherited_for tops c) \<subseteq> set tops"
  by (auto simp: inherited_for_def dest: set_takeWhileD)

lemma inherit_loop_other:
  assumes "ctx \<noteq> CtxExperiment"
  shows "context_controls e ctx = cur \<Longrightarrow> cur \<noteq> [] \<Longrightarrow> top_level_controls e = tops \<Longrightarrow>
    inherit_loop ctx c i e = Some (set_context_controls e ctx (cur @ inherited_for (drop i tops) c))"
proof (induction "length tops - i" arbitrary: i e cur)
  case 0
  then have "drop i tops = []" by simp
  with 0 show ?case
    by (subst inherit_loop.simps) (simp add: inherited_for_def set_context_controls_id)
next
  case (Suc n)
  then have i: "i < length tops" by simp
  then have dr: "drop i tops = tops ! i # drop (Suc i) tops" by (simp add: Cons_nth_drop_Suc)
  let ?tc = "tops ! i"
  show ?case
  proof (cases "c_name c = c_name ?tc")
    case True
    with Suc.prems i show ?thesis
      by (subst inherit_loop.simps) (simp add: dr inherited_for_Cons set_context_controls_id)
  next
    case False
    let ?e' = "if is_automatic ?tc then context_append e ctx ?tc else e"
    let ?cur' = "cur @ (if is_automatic ?tc then [?tc] else [])"
    have c': "context_controls ?e' ctx = ?cur'"
      using Suc.prems by (simp add: context_append_def context_controls_set)
    have t': "top_level_controls ?e' = tops"
      using Suc.prems assms by (simp add: context_append_def top_level_set_other)
    have n: "n = length tops - Suc i" using Suc.hyps(2) by simp
    have "inherit_loop ctx c (Suc i) ?e' =
        Some (set_context_controls ?e' ctx (?cur' @ inherited_for (drop (Suc i) tops) c))"
      using Suc.hyps(1)[OF n c' _ t'] Suc.prems by simp
    moreover have "set_context_controls ?e' ctx (?cur' @ inherited_for (drop (Suc i) tops) c) =
        set_context_controls e ctx (cur @ inherited_for (drop i tops) c)"
      using False Suc.prems
      by (simp add: dr inherited_for_Cons context_append_def set_context_controls_twice)
    ultimately show ?thesis
      using False i Suc.prems by (subst inherit_loop.simps) (simp add: Let_def)
  qed
qed

lemma inherit_loop_experiment:
  "top_level_controls e = P @ S \<Longrightarrow> \<exists>t \<in> set (drop i P). c_name t = c_name c \<Longrightarrow>
   inherit_loop CtxExperiment c i e =
     Some (set_context_controls e CtxExperiment (P @ S @ inherited_for (drop i P) c))"
proof (induction "length P - i" arbitrary: i e S)
  case 0
  then show ?case by simp
next
  case (Suc n)
  then have i: "i < length P" by simp
  then have dr: "drop i P = P ! i # drop (Suc i) P" by (simp add: Cons_nth_drop_Suc)
  let ?tc = "P ! i"
  have nth: "(P @ S) ! i = ?tc" using i by (simp add: nth_append)
  have cc: "context_controls e CtxExperiment = P @ S"
    using Suc.prems by (simp add: top_level_controls_def)
  have ne: "P @ S \<noteq> []" using i by auto
  show ?case
  proof (cases "c_name c = c_name ?tc")
    case True
    with Suc.prems i nth show ?thesis
      using set_context_controls_id[OF cc ne]
      by (subst inherit_loop.simps) (simp add: dr inherited_for_Cons del: set_context_controls.simps)
  next
    case False
    let ?e' = "if is_automatic ?tc then context_append e CtxExperiment ?tc else e"
    let ?S' = "S @ (if is_automatic ?tc then [?tc] else [])"
    have t': "top_level_controls ?e' = P @ ?S'"
      using Suc.prems cc by (simp add: context_append_def top_level_set_experiment del: set_context_controls.simps context_controls.simps)
    have n: "n = length P - Suc i" using Suc.hyps(2) by simp
    have ex: "\<exists>t \<in> set (drop (Suc i) P). c_name t = c_name c"
      using Suc.prems(2) False by (auto simp: dr)
    have "inherit_loop CtxExperiment c (Suc i) ?e' =
        Some (set_context_controls ?e' CtxExperiment (P @ ?S' @ inherited_for (drop (Suc i) P) c))"
      using Suc.hyps(1)[OF n t' ex] .
    moreover have "set_context_controls ?e' CtxExperiment (P @ ?S' @ inherited_for (drop (Suc i) P) c) =
        set_context_controls e CtxExperiment (P @ S @ inherited_for (drop i P) c)"
      using False
      by (simp add: dr inherited_for_Cons context_append_def set_context_controls_twice del: set_context_controls.simps context_controls.simps)
    ultimately show ?thesis
      using False i nth Suc.prems(1) by (subst inherit_loop.simps) (simp add: Let_def del: set_context_controls.simps)
  qed
qed

lemma resolve_ref_None_iff:
  "resolve_ref r ts = Inr None \<longleftrightarrow> (\<forall>t \<in> set ts. \<exists>n. c_name t = Some n \<and> n \<noteq> r)"
  by (induction ts) (auto split: option.splits)

lemma resolve_ref_append:
  "resolve_ref r (xs @ ys) = (if resolve_ref r xs = Inr None then resolve_ref r ys else resolve_ref r xs)"
  by (induction xs) (auto split: option.splits)

lemma resolve_ref_alias:
  "set S \<subseteq> set P \<Longrightarrow> resolve_ref r (P @ S) = resolve_ref r P"
  using resolve_ref_None_iff[of r P] resolve_ref_None_iff[of r S]
  by (auto simp: resolve_ref_append)

lemma resolve_ref_Some:
  "resolve_ref r ts = Inr (Some t) \<Longrightarrow> t \<in> set ts \<and> c_name t = Some r"
  by (induction ts) (auto split: option.splits if_splits)

lemma merge_pure_subset: "set (snd (merge_pure tops cs)) \<subseteq> set tops"
proof (induction cs)
  case Nil
  then show ?case by simp
next
  case (Cons c cs)
  then show ?case
    using inherited_for_subset[of tops c]
    by (auto split: option.splits sum.splits dest: resolve_ref_Some)
qed

lemma merge_loop_other:
  assumes "ctx \<noteq> CtxExperiment"
  shows "context_controls e ctx = cur \<Longrightarrow> cur \<noteq> [] \<Longrightarrow> top_level_controls e = tops \<Longrightarrow>
    merge_loop ctx cs e =
      Some (fst (merge_pure tops cs), set_context_controls e ctx (cur @ snd (merge_pure tops cs)))"
proof (induction cs arbitrary: e cur)
  case Nil
  then show ?case by (simp add: set_context_controls_id)
next
  case (Cons c cs)
  show ?case
  proof (cases "c_ref c")
    case None
    let ?e' = "set_context_controls e ctx (cur @ inherited_for tops c)"
    have il: "inherit_loop ctx c 0 e = Some ?e'"
      using inherit_loop_other[OF assms Cons.prems(1,2,3), of c 0] by simp
    have c': "context_controls ?e' ctx = cur @ inherited_for tops c"
      using Cons.prems by (simp add: context_controls_set)
    have t': "top_level_controls ?e' = tops"
      using Cons.prems assms by (simp add: top_level_set_other)
    have "merge_loop ctx cs ?e' = Some (fst (merge_pure tops cs),
        set_context_controls ?e' ctx ((cur @ inherited_for tops c) @ snd (merge_pure tops cs)))"
      using Cons.IH[OF c' _ t'] Cons.prems(2) by simp
    then show ?thesis using None il by (simp add: set_context_controls_twice)
  next
    case (Some r)
    show ?thesis
    proof (cases "resolve_ref r tops")
      case (Inl x)
      then show ?thesis using Some Cons.prems by (simp add: set_context_controls_id)
    next
      case (Inr found)
      show ?thesis
      proof (cases found)
        case None
        then show ?thesis using Some Inr Cons.prems Cons.IH[OF Cons.prems] by simp
      next
        case (Some t)
        let ?e' = "context_append e ctx t"
        have c': "context_controls ?e' ctx = cur @ [t]"
          using Cons.prems by (simp add: context_append_def context_controls_set)
        have t': "top_level_controls ?e' = tops"
          using Cons.prems assms by (simp add: context_append_def top_level_set_other)
        have "merge_loop ctx cs ?e' = Some (fst (merge_pure tops cs),
            set_context_controls ?e' ctx ((cur @ [t]) @ snd (merge_pure tops cs)))"
          using Cons.IH[OF c' _ t'] by simp
        then show ?thesis
          using Some \<open>c_ref c = Some r\<close> Inr Cons.prems
          by (simp add: context_append_def set_context_controls_twice)
      qed
    qed
  qed
qed

lemma merge_loop_experiment:
  "top_level_controls e = P @ S \<Longrightarrow> P \<noteq> [] \<Longrightarrow> set cs \<subseteq> set P \<Longrightarrow> set S \<subseteq> set P \<Longrightarrow>
    merge_loop CtxExperiment cs e =
      Some (fst (merge_pure P cs), set_context_controls e CtxExperiment (P @ S @ snd (merge_pure P cs)))"
proof (induction cs arbitrary: e S)
  case Nil
  have "context_controls e CtxExperiment = P @ S" using Nil by (simp add: top_level_controls_def)
  then show ?case using Nil set_context_controls_id[of e CtxExperiment "P @ S"]
    by (simp del: set_context_controls.simps context_controls.simps)
next
  case (Cons c cs)
  have cc: "context_controls e CtxExperiment = P @ S"
    using Cons.prems by (simp add: top_level_controls_def)
  have ne: "P @ S \<noteq> []" using Cons.prems by simp
  have cs: "set cs \<subseteq> set P" and cP: "c \<in> set P" using Cons.prems by auto
  show ?case
  proof (cases "c_ref c")
    case None
    let ?e' = "set_context_controls e CtxExperiment (P @ S @ inherited_for P c)"
    have "\<exists>t \<in> set (drop 0 P). c_name t = c_name c" using cP by auto
    then have il: "inherit_loop CtxExperiment c 0 e = Some ?e'"
      using inherit_loop_experiment[OF Cons.prems(1), of 0 c] by simp
    have t': "top_level_controls ?e' = P @ (S @ inherited_for P c)"
      by (simp add: top_level_set_experiment del: set_context_controls.simps)
    have sub: "set (S @ inherited_for P c) \<subseteq> set P"
      using Cons.prems(4) inherited_for_subset[of P c] by auto
    have "merge_loop CtxExperiment cs ?e' = Some (fst (merge_pure P cs),
        set_context_controls ?e' CtxExperiment (P @ (S @ inherited_for P c) @ snd (merge_pure P cs)))"
      using Cons.IH[OF t' Cons.prems(2) cs sub] .
    then show ?thesis using None il
      by (simp add: set_context_controls_twice del: set_context_controls.simps)
  next
    case (Some r)
    have rr: "resolve_ref r (top_level_controls e) = resolve_ref r P"
      using Cons.prems by (simp add: resolve_ref_alias)
    show ?thesis
    proof (cases "resolve_ref r P")
      case (Inl x)
      then show ?thesis using Some rr set_context_controls_id[OF cc ne]
        by (simp del: set_context_controls.simps)
    next
      case (Inr found)
      show ?thesis
      proof (cases found)
        case None
        then show ?thesis using Some Inr rr Cons.IH[OF Cons.prems(1,2) cs Cons.prems(4)]
          by (simp del: set_context_controls.simps)
      next
        case (Some t)
        let ?e' = "context_append e CtxExperiment t"
        have tP: "t \<in> set P" using Inr Some resolve_ref_Some by blast
        have t': "top_level_controls ?e' = P @ (S @ [t])"
          using cc by (simp add: context_append_def top_level_set_experiment del: set_context_controls.simps context_controls.simps)
        have sub: "set (S @ [t]) \<subseteq> set P" using Cons.prems(4) tP by auto
        have "merge_loop CtxExperiment cs ?e' = Some (fst (merge_pure P cs),
            set_context_controls ?e' CtxExperiment (P @ (S @ [t]) @ snd (merge_pure P cs)))"
          using Cons.IH[OF t' Cons.prems(2) cs sub] .
        then show ?thesis
          using Some \<open>c_ref c = Some r\<close> Inr rr cc
          by (simp add: context_append_def set_context_controls_twice del: set_context_controls.simps context_controls.simps)
      qed
    qed
  qed
qed

lemma get_context_controls_local:
  assumes "context_controls e ctx \<noteq> []"
  shows "get_context_controls e ctx =
    (let L = context_controls e ctx; m = merge_pure (top_level_controls e) L;
         e' = set_context_controls e ctx (L @ snd m)
     in Some (case fst m of Inl x \<Rightarrow> Inl x | Inr u \<Rightarrow> Inr (L @ snd m), e'))"
proof -
  let ?L = "context_controls e ctx"
  let ?m = "merge_pure (top_level_controls e) ?L"
  have ml: "merge_loop ctx ?L e = Some (fst ?m, set_context_controls e ctx (?L @ snd ?m))"
  proof (cases "ctx = CtxExperiment")
    case True
    then have tl: "top_level_controls e = ?L @ []" by (simp add: top_level_controls_def)
    show ?thesis
      using merge_loop_experiment[OF tl, of ?L] assms True tl by simp
  next
    case False
    then show ?thesis using merge_loop_other[OF False refl assms refl] by simp
  qed
  have cc: "context_controls (set_context_controls e ctx (?L @ snd ?m)) ctx = ?L @ snd ?m"
    using assms by (simp add: context_controls_set)
  show ?thesis
    using assms ml cc by (simp add: get_context_controls_def Let_def split: sum.splits)
qed

section \<open>Properties of \<^verbatim>\<open>get_context_controls\<close>\<close>

lemma merge_pure_member:
  "x \<in> set (snd (merge_pure tops cs)) \<Longrightarrow>
   is_automatic x \<or> (\<exists>c \<in> set cs. \<exists>r. c_ref c = Some r \<and> c_name x = Some r)"
proof (induction cs)
  case Nil
  then show ?case by simp
next
  case (Cons c cs)
  then show ?case
    by (auto simp: inherited_for_def split: option.splits sum.splits dest: resolve_ref_Some)
qed

lemma get_context_controls_empty:
  "context_controls e ctx = [] \<Longrightarrow>
   get_context_controls e ctx = Some (Inr (filter is_automatic (top_level_controls e)), e)"
  by (simp add: get_context_controls_def Let_def)

lemma get_context_controls_total: "\<exists>r e'. get_context_controls e ctx = Some (r, e')"
proof (cases "context_controls e ctx = []")
  case True
  then show ?thesis by (simp add: get_context_controls_empty)
next
  case False
  then show ?thesis by (simp add: get_context_controls_local Let_def)
qed

lemma get_context_controls_result:
  assumes "context_controls e ctx \<noteq> []" and "get_context_controls e ctx = Some (Inr R, e')"
  shows "R = context_controls e ctx @ snd (merge_pure (top_level_controls e) (context_controls e ctx))"
    and "fst (merge_pure (top_level_controls e) (context_controls e ctx)) = Inr ()"
    and "e' = set_context_controls e ctx R"
  using assms by (auto simp: get_context_controls_local Let_def split: sum.splits)

text \<open>
  Claim C5. For a node with no local controls, \<open>get_context_controls\<close> returns exactly
  the top-level controls whose \<open>automatic\<close> is not \<open>false\<close> (an absent key counts as
  true), in their order, and writes nothing; with no top-level controls either, the result is
  empty. For any node, a top-level control with \<open>automatic\<close> \<open>false\<close> is not in the
  returned list unless the node's own list holds it or holds a \<open>ref\<close> to its name.
\<close>

theorem automatic_controls_without_local_controls:
  "(context_controls e ctx = [] \<longrightarrow>
      get_context_controls e ctx =
        Some (Inr (filter (\<lambda>c. c_automatic c \<noteq> Some False) (top_level_controls e)), e))
   \<and> (context_controls e ctx = [] \<and> top_level_controls e = [] \<longrightarrow>
      get_context_controls e ctx = Some (Inr [], e))
   \<and> (tc \<in> set (top_level_controls e) \<and> c_automatic tc = Some False
      \<and> tc \<notin> set (context_controls e ctx)
      \<and> (\<forall>c \<in> set (context_controls e ctx). \<forall>r. c_ref c = Some r \<longrightarrow> c_name tc \<noteq> Some r)
      \<and> get_context_controls e ctx = Some (Inr R, e') \<longrightarrow> tc \<notin> set R)"
proof (intro conjI impI)
  have auto_eq: "is_automatic = (\<lambda>c. c_automatic c \<noteq> Some False)"
    by (auto simp: is_automatic_def fun_eq_iff split: option.splits)
  show "get_context_controls e ctx =
      Some (Inr (filter (\<lambda>c. c_automatic c \<noteq> Some False) (top_level_controls e)), e)"
    if "context_controls e ctx = []"
    using that get_context_controls_empty[of e ctx] by (simp add: auto_eq)
  show "get_context_controls e ctx = Some (Inr [], e)"
    if "context_controls e ctx = [] \<and> top_level_controls e = []"
    using that by (simp add: get_context_controls_empty)
  show "tc \<notin> set R"
    if h: "tc \<in> set (top_level_controls e) \<and> c_automatic tc = Some False
      \<and> tc \<notin> set (context_controls e ctx)
      \<and> (\<forall>c \<in> set (context_controls e ctx). \<forall>r. c_ref c = Some r \<longrightarrow> c_name tc \<noteq> Some r)
      \<and> get_context_controls e ctx = Some (Inr R, e')"
  proof (cases "context_controls e ctx = []")
    case True
    with h have "R = filter is_automatic (top_level_controls e)"
      by (auto simp: get_context_controls_empty)
    with h show ?thesis by (simp add: is_automatic_def)
  next
    case False
    from h have gcc: "get_context_controls e ctx = Some (Inr R, e')" by simp
    have R: "R = context_controls e ctx @ snd (merge_pure (top_level_controls e) (context_controls e ctx))"
      using get_context_controls_result(1)[OF False gcc] .
    have na: "\<not> is_automatic tc" using h by (simp add: is_automatic_def)
    have "tc \<notin> set (snd (merge_pure (top_level_controls e) (context_controls e ctx)))"
    proof
      assume "tc \<in> set (snd (merge_pure (top_level_controls e) (context_controls e ctx)))"
      from merge_pure_member[OF this] na h show False by blast
    qed
    with h R show ?thesis by simp
  qed
qed

theorem automatic_controls_without_local_controls_witness:
  "context_controls c5_experiment CtxHypothesis = []
   \<and> get_context_controls c5_experiment CtxHypothesis =
       Some (Inr [top_control ''a'', (top_control ''b'')\<lparr>c_automatic := Some True\<rparr>], c5_experiment)
   \<and> (top_control ''m'')\<lparr>c_automatic := Some False\<rparr> \<in> set (top_level_controls c5_experiment)
   \<and> map_option fst (get_context_controls c5_experiment (CtxMethod 0)) =
       Some (Inr [local_control ''x'', top_control ''a'', (top_control ''b'')\<lparr>c_automatic := Some True\<rparr>])
   \<and> (top_control ''m'')\<lparr>c_automatic := Some False\<rparr> \<notin>
       set [local_control ''x'', top_control ''a'', (top_control ''b'')\<lparr>c_automatic := Some True\<rparr>]"
proof -
  have l: "context_controls c5_experiment CtxHypothesis = []"
    by (simp add: c5_experiment_def)
  have t: "top_level_controls c5_experiment =
      [top_control ''a'', (top_control ''m'')\<lparr>c_automatic := Some False\<rparr>,
       (top_control ''b'')\<lparr>c_automatic := Some True\<rparr>]"
    by (simp add: c5_experiment_def top_level_controls_def)
  have g: "map_option fst (get_context_controls c5_experiment (CtxMethod 0)) =
       Some (Inr [local_control ''x'', top_control ''a'', (top_control ''b'')\<lparr>c_automatic := Some True\<rparr>])"
    by code_simp
  then obtain e' where g': "get_context_controls c5_experiment (CtxMethod 0) =
       Some (Inr [local_control ''x'', top_control ''a'', (top_control ''b'')\<lparr>c_automatic := Some True\<rparr>], e')"
    by (cases "get_context_controls c5_experiment (CtxMethod 0)") auto
  have lm: "context_controls c5_experiment (CtxMethod 0) = [local_control ''x'']"
    by (simp add: c5_experiment_def)
  note inst = automatic_controls_without_local_controls[of c5_experiment _ "(top_control ''m'')\<lparr>c_automatic := Some False\<rparr>"]
  have 1: "get_context_controls c5_experiment CtxHypothesis =
       Some (Inr [top_control ''a'', (top_control ''b'')\<lparr>c_automatic := Some True\<rparr>], c5_experiment)"
    using inst[of CtxHypothesis] l by (simp add: t top_control_def)
  have 2: "(top_control ''m'')\<lparr>c_automatic := Some False\<rparr> \<notin>
       set [local_control ''x'', top_control ''a'', (top_control ''b'')\<lparr>c_automatic := Some True\<rparr>]"
    using inst[of "CtxMethod 0" _ e'] g'
    by (simp add: t lm local_control_def top_control_def)
  show ?thesis using l 1 2 g by (simp add: t)
qed

lemma resolve_ref_find:
  "resolve_ref r tops = Inr found \<Longrightarrow> find (\<lambda>t. c_name t = Some r) tops = found"
  by (induction tops) (auto split: option.splits if_splits)

lemma merge_pure_appended_for:
  "fst (merge_pure tops cs) = Inr () \<Longrightarrow>
   snd (merge_pure tops cs) = concat (map (appended_for tops) cs)"
proof (induction cs)
  case Nil
  then show ?case by simp
next
  case (Cons c cs)
  then show ?case
    by (auto simp: appended_for_def split: option.splits sum.splits dest: resolve_ref_find)
qed

lemma get_context_controls_appended:
  assumes "context_controls e ctx \<noteq> []" and "get_context_controls e ctx = Some (Inr R, e')"
  shows "R = context_controls e ctx
           @ concat (map (appended_for (top_level_controls e)) (context_controls e ctx))"
  using get_context_controls_result(1,2)[OF assms] merge_pure_appended_for by simp

text \<open>
  Claim C4, as amended. The returned list keeps the \<open>ref\<close> entry itself. When
  \<open>get_context_controls\<close> returns a list for a node that holds an entry \<open>c\<close> with
  \<open>ref = r\<close>, the list is the node's entries as declared, followed by what each entry
  appends, in the order of the entries; what \<open>c\<close> appends is the first top-level control
  named \<open>r\<close>, or nothing when there is none.
\<close>

theorem ref_entry_appends_first_match:
  assumes "c \<in> set (context_controls e ctx)" and "c_ref c = Some r"
    and "get_context_controls e ctx = Some (Inr R, e')"
  shows "\<exists>before after.
      context_controls e ctx = before @ c # after
      \<and> R = (before @ c # after)
            @ concat (map (appended_for (top_level_controls e)) before)
            @ (case find (\<lambda>t. c_name t = Some r) (top_level_controls e) of
                 None \<Rightarrow> [] | Some t \<Rightarrow> [t])
            @ concat (map (appended_for (top_level_controls e)) after)"
proof -
  from assms(1) obtain before after where L: "context_controls e ctx = before @ c # after"
    by (auto dest: split_list)
  then have ne: "context_controls e ctx \<noteq> []" by simp
  have "appended_for (top_level_controls e) c =
      (case find (\<lambda>t. c_name t = Some r) (top_level_controls e) of None \<Rightarrow> [] | Some t \<Rightarrow> [t])"
    using assms(2) by (simp add: appended_for_def)
  then show ?thesis
    using get_context_controls_appended[OF ne assms(3)] L by auto
qed

theorem ref_entry_appends_first_match_witness:
  "ref_entry ''a'' \<in> set (context_controls c4_experiment (CtxMethod 0))
   \<and> c_ref (ref_entry ''a'') = Some ''a''
   \<and> map_option fst (get_context_controls c4_experiment (CtxMethod 0)) =
       Some (Inr [ref_entry ''a'', top_control ''a''])
   \<and> (\<exists>before after.
        context_controls c4_experiment (CtxMethod 0) = before @ ref_entry ''a'' # after
        \<and> [ref_entry ''a'', top_control ''a''] = (before @ ref_entry ''a'' # after)
            @ concat (map (appended_for (top_level_controls c4_experiment)) before)
            @ [top_control ''a'']
            @ concat (map (appended_for (top_level_controls c4_experiment)) after))"
proof -
  have l: "context_controls c4_experiment (CtxMethod 0) = [ref_entry ''a'']"
    by (simp add: c4_experiment_def)
  have r: "c_ref (ref_entry ''a'') = Some ''a''" by (simp add: ref_entry_def)
  have g: "map_option fst (get_context_controls c4_experiment (CtxMethod 0)) =
       Some (Inr [ref_entry ''a'', top_control ''a''])"
    by code_simp
  then obtain e' where g': "get_context_controls c4_experiment (CtxMethod 0) =
       Some (Inr [ref_entry ''a'', top_control ''a''], e')"
    by (cases "get_context_controls c4_experiment (CtxMethod 0)") auto
  have f: "find (\<lambda>t. c_name t = Some ''a'') (top_level_controls c4_experiment) = Some (top_control ''a'')"
    by (simp add: c4_experiment_def top_level_controls_def top_control_def)
  have m: "ref_entry ''a'' \<in> set (context_controls c4_experiment (CtxMethod 0))"
    using l by simp
  show ?thesis
    using ref_entry_appends_first_match[OF m r g'] l r g by (simp add: f)
qed

text \<open>
  Claim C4 as stated fails: the \<open>ref\<close> entry itself is in the returned list, beside the
  control it resolves to, and an entry whose \<open>ref\<close> names no top-level control is returned
  too.
\<close>

theorem ref_entry_is_returned_counterexample:
  "map_option fst (get_context_controls c4_experiment (CtxMethod 0)) =
     Some (Inr [ref_entry ''a'', top_control ''a''])
   \<and> map_option fst (get_context_controls c4_experiment (CtxMethod 1)) =
     Some (Inr [ref_entry ''zz''])"
  by code_simp

text \<open>
  Claim C1 fails on the code. With the top-level controls \<open>a\<close>, \<open>b\<close>: an activity that
  declares its own \<open>a\<close> and \<open>b\<close> still inherits the top-level \<open>a\<close>; an activity that
  declares \<open>x\<close> and \<open>y\<close> inherits \<open>a\<close> and \<open>b\<close> twice, once for each local entry; and
  an activity that declares only \<open>a\<close> does not inherit \<open>b\<close>, which stands after \<open>a\<close> in
  the top-level list.
\<close>

theorem local_controls_do_not_shadow:
  "map_option fst (get_context_controls c1_experiment (CtxMethod 0)) =
     Some (Inr [local_control ''a'', local_control ''b'', top_control ''a''])
   \<and> map_option fst (get_context_controls c1_experiment (CtxMethod 1)) =
     Some (Inr [local_control ''x'', local_control ''y'',
                top_control ''a'', top_control ''b'', top_control ''a'', top_control ''b''])
   \<and> map_option fst (get_context_controls c1_experiment (CtxMethod 2)) =
     Some (Inr [local_control ''a''])"
  by code_simp

text \<open>
  Claim C2 fails on the code. The list returned for a node with local controls is the
  node's own list object: the call appends the inherited control to the activity's
  declaration, and a second call on the same experiment appends it again. With the
  experiment itself as the context (the levels experiment, method and rollback), the call
  appends to the top-level declarations.
\<close>

theorem get_context_controls_mutates:
  "get_context_controls c2_experiment (CtxMethod 0) =
     Some (Inr [local_control ''x'', top_control ''a''], c2_experiment_after)
   \<and> context_controls c2_experiment (CtxMethod 0) = [local_control ''x'']
   \<and> context_controls c2_experiment_after (CtxMethod 0) = [local_control ''x'', top_control ''a'']
   \<and> map_option fst (get_context_controls c2_experiment_after (CtxMethod 0)) =
     Some (Inr [local_control ''x'', top_control ''a'', top_control ''a''])
   \<and> get_context_controls c1_experiment CtxExperiment =
     Some (Inr [top_control ''a'', top_control ''b'', top_control ''a''],
           c1_experiment\<lparr>e_controls := Some [top_control ''a'', top_control ''b'', top_control ''a'']\<rparr>)"
  by code_simp

section \<open>Properties of \<^verbatim>\<open>apply_controls\<close>\<close>

text \<open>
  Claim C6 fails on the code. Line 238 assigns the composite tag to the variable \<open>level\<close>
  itself, so the second control called at one point is given the tag built from the first
  one's tag: \<open>activity-pre-pre\<close> instead of \<open>activity-pre\<close>.
\<close>

theorem level_tag_accumulates:
  "apply_controls (\<lambda>tr k. Returns) ''activity'' c6_experiment (CtxMethod 0) ''pre'' (None :: unit option) [] =
     Some (Inr (), c6_experiment,
       [\<lparr>call_level = ''activity-pre'', call_control = top_control ''a'',
          call_context = CtxMethod 0, call_state = None\<rparr>,
        \<lparr>call_level = ''activity-pre-pre'', call_control = top_control ''b'',
          call_context = CtxMethod 0, call_state = None\<rparr>])"
  by code_simp

lemma apply_loop_skip:
  "\<not> is_applied scope c \<Longrightarrow>
   apply_loop apc ctx scope state level (c # cs) tr = apply_loop apc ctx scope state level cs tr"
  by (auto simp: is_applied_def)

lemma propagated_Some_iff:
  "propagated out = Some x \<longleftrightarrow> out = Raises x \<and> (x = InterruptExecution \<or> \<not> is_Exception x)"
  by (cases out) auto

lemma propagated_None_iff:
  "propagated out = None \<longleftrightarrow> (\<forall>x. out = Raises x \<longrightarrow> x \<noteq> InterruptExecution \<and> is_Exception x)"
  by (cases out) auto

lemma apply_loop_stop:
  assumes "is_applied scope c"
    and "propagated (apc tr \<lparr>call_level = level @ ''-'' @ scope, call_control = c,
            call_context = ctx, call_state = state\<rparr>) = Some x"
  shows "apply_loop apc ctx scope state level (c # cs) tr =
    (Inl x, tr @ [\<lparr>call_level = level @ ''-'' @ scope, call_control = c,
        call_context = ctx, call_state = state\<rparr>])"
  using assms by (simp add: is_applied_def Let_def)

lemma apply_loop_continue:
  assumes "is_applied scope c"
    and "propagated (apc tr \<lparr>call_level = level @ ''-'' @ scope, call_control = c,
            call_context = ctx, call_state = state\<rparr>) = None"
  shows "apply_loop apc ctx scope state level (c # cs) tr =
    apply_loop apc ctx scope state (level @ ''-'' @ scope) cs
      (tr @ [\<lparr>call_level = level @ ''-'' @ scope, call_control = c,
        call_context = ctx, call_state = state\<rparr>])"
  using assms by (simp add: is_applied_def Let_def)

lemma apply_loop_trace:
  "\<exists>new. snd (apply_loop apc ctx scope state level cs tr) = tr @ new
     \<and> map call_control new = take (length new) (filter (is_applied scope) cs)
     \<and> (\<forall>k<length new. \<forall>x. propagated (apc (tr @ take k new) (new ! k)) = Some x \<longrightarrow>
           Suc k = length new \<and> fst (apply_loop apc ctx scope state level cs tr) = Inl x)
     \<and> ((\<forall>k<length new. propagated (apc (tr @ take k new) (new ! k)) = None) \<longrightarrow>
           fst (apply_loop apc ctx scope state level cs tr) = Inr ()
           \<and> map call_control new = filter (is_applied scope) cs)"
proof (induction cs arbitrary: tr level)
  case Nil
  show ?case by (rule exI[of _ "[]"]) simp
next
  case (Cons c cs)
  show ?case
  proof (cases "is_applied scope c")
    case False
    have step: "apply_loop apc ctx scope state level (c # cs) tr =
        apply_loop apc ctx scope state level cs tr"
      using apply_loop_skip[OF False] .
    have filt: "filter (is_applied scope) (c # cs) = filter (is_applied scope) cs"
      using False by simp
    show ?thesis unfolding step filt using Cons.IH[of level tr] .
  next
    case True
    let ?k = "\<lparr>call_level = level @ ''-'' @ scope, call_control = c, call_context = ctx,
        call_state = state\<rparr>"
    show ?thesis
    proof (cases "propagated (apc tr ?k)")
      case (Some x)
      have stop: "apply_loop apc ctx scope state level (c # cs) tr = (Inl x, tr @ [?k])"
        using True Some
          apply_loop_stop[where level=level and scope=scope and c=c and apc=apc and tr=tr
            and ctx=ctx and state=state and cs=cs and x=x]
        by simp
      show ?thesis
        using True Some by (intro exI[of _ "[?k]"]) (simp add: stop del: apply_loop.simps)
    next
      case None
      let ?rest = "apply_loop apc ctx scope state (level @ ''-'' @ scope) cs (tr @ [?k])"
      have step: "apply_loop apc ctx scope state level (c # cs) tr = ?rest"
        using True None
          apply_loop_continue[where level=level and scope=scope and c=c and apc=apc and tr=tr
            and ctx=ctx and state=state and cs=cs]
        by simp
      from Cons.IH[of "level @ ''-'' @ scope" "tr @ [?k]"] obtain new where
        n1: "snd ?rest = (tr @ [?k]) @ new"
        and n2: "map call_control new = take (length new) (filter (is_applied scope) cs)"
        and n3: "\<forall>k<length new. \<forall>x. propagated (apc ((tr @ [?k]) @ take k new) (new ! k)) = Some x \<longrightarrow>
           Suc k = length new \<and> fst ?rest = Inl x"
        and n4: "(\<forall>k<length new. propagated (apc ((tr @ [?k]) @ take k new) (new ! k)) = None) \<longrightarrow>
           fst ?rest = Inr () \<and> map call_control new = filter (is_applied scope) cs"
        by blast
      show ?thesis
      proof (intro exI[of _ "?k # new"] conjI)
        show "snd (apply_loop apc ctx scope state level (c # cs) tr) = tr @ ?k # new"
          using n1 by (simp add: step del: apply_loop.simps)
        show "map call_control (?k # new) = take (length (?k # new)) (filter (is_applied scope) (c # cs))"
          using n2 True by simp
        show "\<forall>k<length (?k # new). \<forall>x. propagated (apc (tr @ take k (?k # new)) ((?k # new) ! k)) = Some x \<longrightarrow>
           Suc k = length (?k # new) \<and> fst (apply_loop apc ctx scope state level (c # cs) tr) = Inl x"
          using n3 None by (simp add: All_less_Suc2 step del: apply_loop.simps)
        show "(\<forall>k<length (?k # new). propagated (apc (tr @ take k (?k # new)) ((?k # new) ! k)) = None) \<longrightarrow>
           fst (apply_loop apc ctx scope state level (c # cs) tr) = Inr ()
           \<and> map call_control (?k # new) = filter (is_applied scope) (c # cs)"
          using n4 True by (simp add: All_less_Suc2 step del: apply_loop.simps)
      qed
    qed
  qed
qed

lemma apply_controls_trace:
  assumes "get_context_controls e ctx = Some (Inr cs, e1)"
  shows "\<exists>r new. apply_controls apc level e ctx scope state tr = Some (r, e1, tr @ new)
     \<and> map call_control new = take (length new) (filter (is_applied scope) cs)
     \<and> (\<forall>k<length new. \<forall>x. propagated (apc (tr @ take k new) (new ! k)) = Some x \<longrightarrow>
           Suc k = length new \<and> r = Inl x)
     \<and> ((\<forall>k<length new. propagated (apc (tr @ take k new) (new ! k)) = None) \<longrightarrow>
           r = Inr () \<and> map call_control new = filter (is_applied scope) cs)"
proof (cases "cs = []")
  case True
  then have "apply_controls apc level e ctx scope state tr = Some (Inr (), e1, tr @ [])"
    using assms by (simp add: apply_controls_def)
  then show ?thesis using True by (intro exI[of _ "Inr ()"] exI[of _ "[]"]) simp
next
  case False
  let ?res = "apply_loop apc ctx scope state level cs tr"
  have ac: "apply_controls apc level e ctx scope state tr = Some (fst ?res, e1, snd ?res)"
    using assms False by (simp add: apply_controls_def split: prod.splits)
  from apply_loop_trace[of apc ctx scope state level cs tr] obtain new where
    n1: "snd ?res = tr @ new"
    and n2: "map call_control new = take (length new) (filter (is_applied scope) cs)"
    and n3: "\<forall>k<length new. \<forall>x. propagated (apc (tr @ take k new) (new ! k)) = Some x \<longrightarrow>
           Suc k = length new \<and> fst ?res = Inl x"
    and n4: "(\<forall>k<length new. propagated (apc (tr @ take k new) (new ! k)) = None) \<longrightarrow>
           fst ?res = Inr () \<and> map call_control new = filter (is_applied scope) cs"
    by blast
  show ?thesis
    using ac n1 n2 n3 n4 by (intro exI[of _ "fst ?res"] exI[of _ new]) simp
qed

text \<open>
  Claim C3, as amended. Let \<open>cs\<close> be the effective controls of the context.
  \<open>apply_controls\<close> returns, and the provider calls \<open>new\<close> it made are for the controls
  the loop applies, in order. A call that raised \<open>InterruptExecution\<close>, or an exception that
  does not derive from \<open>Exception\<close>, is the last call made, and the function raises that
  exception. When every exception the calls raised derives from \<open>Exception\<close> and none is
  \<open>InterruptExecution\<close>, the function returns normally and every control the loop applies
  was called.
\<close>

theorem interrupt_propagates_other_errors_are_caught:
  assumes "get_context_controls e ctx = Some (Inr cs, e1)"
  shows "\<exists>r new. apply_controls apc level e ctx scope state tr = Some (r, e1, tr @ new)
     \<and> map call_control new = take (length new) (filter (is_applied scope) cs)
     \<and> (\<forall>k<length new. \<forall>x. apc (tr @ take k new) (new ! k) = Raises x
           \<and> (x = InterruptExecution \<or> \<not> is_Exception x) \<longrightarrow>
           Suc k = length new \<and> r = Inl x)
     \<and> ((\<forall>k<length new. \<forall>x. apc (tr @ take k new) (new ! k) = Raises x \<longrightarrow>
             x \<noteq> InterruptExecution \<and> is_Exception x) \<longrightarrow>
           r = Inr () \<and> map call_control new = filter (is_applied scope) cs)"
  using apply_controls_trace[OF assms, of apc level scope state tr]
  unfolding propagated_Some_iff propagated_None_iff .

theorem interrupt_propagates_other_errors_are_caught_witness:
  "get_context_controls c3_experiment (CtxMethod 0) =
     Some (Inr [top_control ''a'', top_control ''b'', top_control ''c'', top_control ''d''], c3_experiment)
   \<and> (\<exists>new. apply_controls c3_provider ''activity'' c3_experiment (CtxMethod 0) ''pre'' None [] =
         Some (Inl InterruptExecution, c3_experiment, [] @ new)
       \<and> map call_control new = [top_control ''a'', top_control ''b'', top_control ''c'']
       \<and> map call_control new = take (length new) (filter (is_applied ''pre'')
            [top_control ''a'', top_control ''b'', top_control ''c'', top_control ''d'']))"
proof -
  have g: "get_context_controls c3_experiment (CtxMethod 0) =
     Some (Inr [top_control ''a'', top_control ''b'', top_control ''c'', top_control ''d''], c3_experiment)"
    by code_simp
  have v: "map_option (\<lambda>(r, e, tr). (r, e, map call_control tr))
      (apply_controls c3_provider ''activity'' c3_experiment (CtxMethod 0) ''pre'' None []) =
      Some (Inl InterruptExecution, c3_experiment, [top_control ''a'', top_control ''b'', top_control ''c''])"
    by code_simp
  from interrupt_propagates_other_errors_are_caught[OF g, of c3_provider "''activity''" "''pre''" None "[]"]
  obtain r new where
    a: "apply_controls c3_provider ''activity'' c3_experiment (CtxMethod 0) ''pre'' None [] =
         Some (r, c3_experiment, [] @ new)"
    and p: "map call_control new = take (length new) (filter (is_applied ''pre'')
            [top_control ''a'', top_control ''b'', top_control ''c'', top_control ''d''])"
    by blast
  from v a have r: "r = Inl InterruptExecution"
    and m: "map call_control new = [top_control ''a'', top_control ''b'', top_control ''c'']"
    by simp_all
  show ?thesis
  proof (intro conjI exI[of _ new])
    show "get_context_controls c3_experiment (CtxMethod 0) =
      Some (Inr [top_control ''a'', top_control ''b'', top_control ''c'', top_control ''d''], c3_experiment)"
      by (rule g)
    show "apply_controls c3_provider ''activity'' c3_experiment (CtxMethod 0) ''pre'' None [] =
        Some (Inl InterruptExecution, c3_experiment, [] @ new)"
      using a r by simp
    show "map call_control new = [top_control ''a'', top_control ''b'', top_control ''c'']"
      by (rule m)
    show "map call_control new = take (length new) (filter (is_applied ''pre'')
        [top_control ''a'', top_control ''b'', top_control ''c'', top_control ''d''])"
      by (rule p)
  qed
qed

text \<open>
  Claim C3 as stated fails: an exception that does not derive from \<open>Exception\<close> is not
  caught. When control \<open>a\<close> raises \<open>SystemExit\<close>, \<open>apply_controls\<close> raises it and the
  controls \<open>b\<close>, \<open>c\<close> and \<open>d\<close> are not called.
\<close>

theorem base_exception_is_not_caught_counterexample:
  "apply_controls c3_exit_provider ''activity'' c3_experiment (CtxMethod 0) ''pre'' None [] =
     Some (Inl SystemExit, c3_experiment,
       [\<lparr>call_level = ''activity-pre'', call_control = top_control ''a'',
          call_context = CtxMethod 0, call_state = None\<rparr>])"
  by code_simp

lemma apply_controls_total:
  "\<exists>r e' new. apply_controls apc level e ctx scope state tr = Some (r, e', tr @ new)
     \<and> (\<forall>k \<in> set new. is_applied scope (call_control k))"
proof -
  from get_context_controls_total[of e ctx] obtain res e1 where
    g: "get_context_controls e ctx = Some (res, e1)" by blast
  show ?thesis
  proof (cases res)
    case (Inl x)
    then have "apply_controls apc level e ctx scope state tr = Some (Inl x, e1, tr @ [])"
      using g by (simp add: apply_controls_def)
    then show ?thesis by (intro exI[of _ "Inl x"] exI[of _ e1] exI[of _ "[]"]) simp
  next
    case (Inr cs)
    from apply_controls_trace[of e ctx cs e1 apc level scope state tr] g Inr
    obtain r new where a: "apply_controls apc level e ctx scope state tr = Some (r, e1, tr @ new)"
      and m: "map call_control new = take (length new) (filter (is_applied scope) cs)"
      by blast
    have "\<forall>c \<in> set (map call_control new). is_applied scope c"
      unfolding m by (auto dest: in_set_takeD)
    then have "\<forall>k \<in> set new. is_applied scope (call_control k)" by simp
    with a show ?thesis by blast
  qed
qed

text \<open>
  Claim C9. \<open>apply_controls\<close> returns, and no provider call it makes is for a control
  whose \<open>scope\<close> key is absent or whose scope is the empty string or the empty list,
  whatever the level and the scope asked for.
\<close>

theorem control_without_scope_is_never_applied:
  assumes "c_scope c = None \<or> c_scope c = Some (ScopeStr []) \<or> c_scope c = Some (ScopeList [])"
  shows "\<exists>r e' new. apply_controls apc level e ctx scope state tr = Some (r, e', tr @ new)
     \<and> c \<notin> call_control ` set new"
proof -
  from apply_controls_total[of apc level e ctx scope state tr] obtain r e' new where
    a: "apply_controls apc level e ctx scope state tr = Some (r, e', tr @ new)"
    and m: "\<forall>k \<in> set new. is_applied scope (call_control k)" by blast
  have "\<not> is_applied scope c" using assms by (auto simp: is_applied_def)
  with m have "c \<notin> call_control ` set new" by auto
  with a show ?thesis by blast
qed


theorem control_without_scope_is_never_applied_witness:
  "c_scope ((top_control ''a'')\<lparr>c_scope := None\<rparr>) = None
   \<and> (\<exists>new. apply_controls (\<lambda>tr k. Returns) ''activity'' c9_experiment (CtxMethod 0) ''pre''
         (None :: unit option) [] = Some (Inr (), c9_experiment, [] @ new)
       \<and> map call_control new = [top_control ''b'']
       \<and> (top_control ''a'')\<lparr>c_scope := None\<rparr> \<notin> call_control ` set new)"
proof -
  let ?c = "(top_control ''a'')\<lparr>c_scope := None\<rparr>"
  let ?apc = "(\<lambda>tr k. Returns) :: unit python_control"
  have s: "c_scope ?c = None" by simp
  have v: "map_option (\<lambda>(r, e, tr). (r, e, map call_control tr))
      (apply_controls ?apc ''activity'' c9_experiment (CtxMethod 0) ''pre'' None []) =
      Some (Inr (), c9_experiment, [top_control ''b''])"
    by code_simp
  from control_without_scope_is_never_applied[of ?c ?apc "''activity''" c9_experiment "CtxMethod 0" "''pre''" None "[]"] s
  obtain r e' new where
    a: "apply_controls ?apc ''activity'' c9_experiment (CtxMethod 0) ''pre'' None [] = Some (r, e', [] @ new)"
    and n: "?c \<notin> call_control ` set new"
    by auto
  from v a have r: "r = Inr ()" and e: "e' = c9_experiment"
    and m: "map call_control new = [top_control ''b'']"
    by simp_all
  show ?thesis
  proof (intro conjI exI[of _ new])
    show "c_scope ?c = None" by (rule s)
    show "apply_controls ?apc ''activity'' c9_experiment (CtxMethod 0) ''pre'' None [] =
        Some (Inr (), c9_experiment, [] @ new)"
      using a r e by simp
    show "map call_control new = [top_control ''b'']" by (rule m)
    show "?c \<notin> call_control ` set new" by (rule n)
  qed
qed

section \<open>Properties of the context manager \<^verbatim>\<open>controls\<close>\<close>

text \<open>
  Claim C10. When applying the pre controls raises an exception \<open>x\<close> (the interrupt or any
  other), \<open>controls\<close> still applies the post controls, on the experiment and after the calls
  the pre controls left and with no state, before an exception leaves it: \<open>x\<close>, or the
  exception of the post controls when they raise one. The block is not run.
\<close>

theorem post_controls_run_when_pre_controls_raise:
  assumes "apply_controls apc level e ctx ''pre'' None tr = Some (Inl x, e1, tr1)"
  shows "\<exists>r2 e2 new.
      apply_controls apc level e1 ctx ''post'' None tr1 = Some (r2, e2, tr1 @ new)
      \<and> controls apc level e ctx body tr =
          Some (Inl (case r2 of Inl y \<Rightarrow> y | Inr u \<Rightarrow> x), e2, tr1 @ new)"
proof -
  from apply_controls_total[of apc level e1 ctx "''post''" None tr1] obtain r2 e2 new where
    a: "apply_controls apc level e1 ctx ''post'' None tr1 = Some (r2, e2, tr1 @ new)" by blast
  have "controls apc level e ctx body tr =
      Some (Inl (case r2 of Inl y \<Rightarrow> y | Inr u \<Rightarrow> x), e2, tr1 @ new)"
    using assms a by (simp add: controls_def Control_begin_def Control_end_def split: sum.splits)
  with a show ?thesis by blast
qed

theorem post_controls_run_when_pre_controls_raise_witness:
  "apply_controls c10_provider ''experiment'' c10_experiment CtxExperiment ''pre'' None [] =
     Some (Inl InterruptExecution, c10_experiment,
       [\<lparr>call_level = ''experiment-pre'', call_control = top_control ''a'',
          call_context = CtxExperiment, call_state = None\<rparr>])
   \<and> controls c10_provider ''experiment'' c10_experiment CtxExperiment c10_block [] =
     Some (Inl InterruptExecution, c10_experiment,
       [\<lparr>call_level = ''experiment-pre'', call_control = top_control ''a'',
          call_context = CtxExperiment, call_state = None\<rparr>,
        \<lparr>call_level = ''experiment-post'', call_control = top_control ''a'',
          call_context = CtxExperiment, call_state = None\<rparr>])"
proof -
  let ?pre = "\<lparr>call_level = ''experiment-pre'', call_control = top_control ''a'',
          call_context = CtxExperiment, call_state = None :: unit option\<rparr>"
  let ?post = "\<lparr>call_level = ''experiment-post'', call_control = top_control ''a'',
          call_context = CtxExperiment, call_state = None :: unit option\<rparr>"
  have p: "apply_controls c10_provider ''experiment'' c10_experiment CtxExperiment ''pre'' None [] =
     Some (Inl InterruptExecution, c10_experiment, [?pre])"
    by code_simp
  have q: "apply_controls c10_provider ''experiment'' c10_experiment CtxExperiment ''post'' None [?pre] =
     Some (Inr (), c10_experiment, [?pre, ?post])"
    by code_simp
  from post_controls_run_when_pre_controls_raise[OF p, of c10_block] obtain r2 e2 new where
    a: "apply_controls c10_provider ''experiment'' c10_experiment CtxExperiment ''post'' None [?pre] =
        Some (r2, e2, [?pre] @ new)"
    and c: "controls c10_provider ''experiment'' c10_experiment CtxExperiment c10_block [] =
        Some (Inl (case r2 of Inl y \<Rightarrow> y | Inr u \<Rightarrow> InterruptExecution), e2, [?pre] @ new)"
    by auto
  from a q have "r2 = Inr ()" and "e2 = c10_experiment" and "[?pre] @ new = [?pre, ?post]"
    by simp_all
  with c have "controls c10_provider ''experiment'' c10_experiment CtxExperiment c10_block [] =
     Some (Inl InterruptExecution, c10_experiment, [?pre, ?post])"
    by simp
  with p show ?thesis by simp
qed

section \<open>Properties of \<^verbatim>\<open>initialize_controls\<close> and \<^verbatim>\<open>cleanup_controls\<close>\<close>

lemma initialize_loop_once:
  assumes "distinct (map c_name tr)" and "\<forall>c \<in> set tr. \<exists>n. c_name c = Some n \<and> n \<in> set seen"
  shows "distinct (map c_name (snd (initialize_loop ic cs seen tr)))"
  using assms
proof (induction cs arbitrary: seen tr)
  case Nil
  then show ?case by simp
next
  case (Cons c cs)
  show ?case
  proof (cases "c_name c")
    case None
    then show ?thesis using Cons by simp
  next
    case (Some n)
    show ?thesis
    proof (cases "n = [] \<or> n \<in> set seen")
      case True
      then show ?thesis using Some Cons by auto
    next
      case False
      have fresh: "c_name c \<notin> set (map c_name tr)"
        using False Some Cons.prems(2) by auto
      have d': "distinct (map c_name (tr @ [c]))" using Cons.prems(1) fresh by simp
      have s': "\<forall>c' \<in> set (tr @ [c]). \<exists>m. c_name c' = Some m \<and> m \<in> set (seen @ [n])"
        using Cons.prems(2) Some by auto
      have s0: "\<forall>c' \<in> set tr. \<exists>m. c_name c' = Some m \<and> m \<in> set (seen @ [n])"
        using Cons.prems(2) by auto
      show ?thesis
        using False Some Cons.IH[OF d' s'] Cons.IH[OF Cons.prems(1) s0] d' Cons.prems(1)
        by (auto split: option.splits outcome.splits simp del: distinct_append)
    qed
  qed
qed


lemma find_append:
  "find P (xs @ ys) = (case find P xs of None \<Rightarrow> find P ys | Some x \<Rightarrow> Some x)"
  by (induction xs) auto

lemma initialize_loop_first:
  assumes "\<forall>n. n \<in> set seen \<longleftrightarrow> n \<noteq> [] \<and> (\<exists>d \<in> set before. c_name d = Some n)"
    and "\<forall>c \<in> set tr. \<exists>n. c_name c = Some n \<and> n \<noteq> []
           \<and> find (\<lambda>d. c_name d = Some n) before = Some c"
  shows "\<forall>c \<in> set (snd (initialize_loop ic cs seen tr)). \<exists>n. c_name c = Some n \<and> n \<noteq> []
           \<and> find (\<lambda>d. c_name d = Some n) (before @ cs) = Some c"
  using assms
proof (induction cs arbitrary: before seen tr)
  case Nil
  then show ?case by simp
next
  case (Cons c cs)
  have keep: "\<forall>c' \<in> set tr. \<exists>n. c_name c' = Some n \<and> n \<noteq> []
           \<and> find (\<lambda>d. c_name d = Some n) (before @ [c]) = Some c'"
    using Cons.prems(2) by (auto simp: find_append)
  have keep_all: "\<forall>c' \<in> set tr. \<exists>n. c_name c' = Some n \<and> n \<noteq> []
           \<and> find (\<lambda>d. c_name d = Some n) (before @ c # cs) = Some c'"
    using Cons.prems(2) by (auto simp: find_append)
  show ?case
  proof (cases "c_name c")
    case None
    have s: "\<forall>n. n \<in> set seen \<longleftrightarrow> n \<noteq> [] \<and> (\<exists>d \<in> set (before @ [c]). c_name d = Some n)"
      using Cons.prems(1) None by auto
    show ?thesis using None Cons.IH[OF s keep] by simp
  next
    case (Some n)
    show ?thesis
    proof (cases "n = [] \<or> n \<in> set seen")
      case True
      have s: "\<forall>m. m \<in> set seen \<longleftrightarrow> m \<noteq> [] \<and> (\<exists>d \<in> set (before @ [c]). c_name d = Some m)"
        using Cons.prems(1) Some True by auto
      show ?thesis using Some True Cons.IH[OF s keep] by auto
    next
      case False
      have s: "\<forall>m. m \<in> set (seen @ [n]) \<longleftrightarrow> m \<noteq> [] \<and> (\<exists>d \<in> set (before @ [c]). c_name d = Some m)"
        using Cons.prems(1) Some False by auto
      have nf: "find (\<lambda>d. c_name d = Some n) before = None"
        using Cons.prems(1) False by (auto simp: find_None_iff)
      have new: "\<forall>c' \<in> set (tr @ [c]). \<exists>m. c_name c' = Some m \<and> m \<noteq> []
           \<and> find (\<lambda>d. c_name d = Some m) (before @ [c]) = Some c'"
        using keep Some False nf by (auto simp: find_append)
      have new_all: "\<forall>c' \<in> set (tr @ [c]). \<exists>m. c_name c' = Some m \<and> m \<noteq> []
           \<and> find (\<lambda>d. c_name d = Some m) (before @ c # cs) = Some c'"
        using keep_all Some False nf by (auto simp: find_append)
      show ?thesis
        using False Some Cons.IH[OF s new] Cons.IH[OF s keep] keep_all new_all
        by (auto split: option.splits outcome.splits)
    qed
  qed
qed

lemma cleanup_loop_eq: "cleanup_loop cc cs seen tr = initialize_loop cc cs seen tr"
  by (induction cs arbitrary: seen tr) (auto split: option.splits outcome.splits)

text \<open>
  Claim C8. The calls \<open>initialize_controls\<close> makes to the provider's initialization carry
  pairwise different control names, so no name is initialized twice, and each control it
  initializes is the first control of that name in the order of \<open>get_controls\<close>: top level,
  hypothesis, then the activities. The same holds for \<open>cleanup_controls\<close>.
\<close>

theorem controls_initialized_and_cleaned_once_per_name:
  "distinct (map c_name (snd (initialize_controls ic e)))
   \<and> (\<forall>c \<in> set (snd (initialize_controls ic e)). \<exists>n. c_name c = Some n \<and> n \<noteq> []
         \<and> find (\<lambda>d. c_name d = Some n) (get_controls e) = Some c)
   \<and> distinct (map c_name (snd (cleanup_controls cc e)))
   \<and> (\<forall>c \<in> set (snd (cleanup_controls cc e)). \<exists>n. c_name c = Some n \<and> n \<noteq> []
         \<and> find (\<lambda>d. c_name d = Some n) (get_controls e) = Some c)"
proof -
  have d: "distinct (map c_name (snd (initialize_loop f (get_controls e) [] [])))" for f
    by (rule initialize_loop_once) simp_all
  have f: "\<forall>c \<in> set (snd (initialize_loop f (get_controls e) [] [])). \<exists>n. c_name c = Some n \<and> n \<noteq> []
         \<and> find (\<lambda>d. c_name d = Some n) ([] @ get_controls e) = Some c" for f
    by (rule initialize_loop_first) simp_all
  show ?thesis
    using d[of ic] d[of cc] f[of ic] f[of cc]
    by (simp add: initialize_controls_def cleanup_controls_def cleanup_loop_eq)
qed

theorem controls_initialized_and_cleaned_once_per_name_witness:
  "get_controls c8_experiment =
     [top_control ''a'', top_control ''b'', local_control ''a'', local_control ''b'',
      local_control ''x'', ref_entry ''a'', local_control ''x'', top_control ''a'']
   \<and> initialize_controls (\<lambda>tr c. Returns) c8_experiment =
       (Inr (), [top_control ''a'', top_control ''b'', local_control ''x''])
   \<and> cleanup_controls (\<lambda>tr c. Returns) c8_experiment =
       (Inr (), [top_control ''a'', top_control ''b'', local_control ''x''])
   \<and> distinct (map c_name [top_control ''a'', top_control ''b'', local_control ''x''])
   \<and> find (\<lambda>d. c_name d = Some ''a'') (get_controls c8_experiment) = Some (top_control ''a'')"
proof -
  have g: "get_controls c8_experiment =
     [top_control ''a'', top_control ''b'', local_control ''a'', local_control ''b'',
      local_control ''x'', ref_entry ''a'', local_control ''x'', top_control ''a'']"
    by code_simp
  have i: "initialize_controls (\<lambda>tr c. Returns) c8_experiment =
       (Inr (), [top_control ''a'', top_control ''b'', local_control ''x''])"
    by code_simp
  have c: "cleanup_controls (\<lambda>tr c. Returns) c8_experiment =
       (Inr (), [top_control ''a'', top_control ''b'', local_control ''x''])"
    by code_simp
  note inst = controls_initialized_and_cleaned_once_per_name[of "\<lambda>tr c. Returns" c8_experiment "\<lambda>tr c. Returns"]
  have d: "distinct (map c_name [top_control ''a'', top_control ''b'', local_control ''x''])"
    using inst by (simp only: i snd_conv)
  have "\<exists>n. c_name (top_control ''a'') = Some n \<and> n \<noteq> []
         \<and> find (\<lambda>d. c_name d = Some n) (get_controls c8_experiment) = Some (top_control ''a'')"
    using inst by (simp only: i snd_conv) simp
  then have f: "find (\<lambda>d. c_name d = Some ''a'') (get_controls c8_experiment) = Some (top_control ''a'')"
    by (simp add: top_control_def)
  show ?thesis
  proof (intro conjI)
    show "get_controls c8_experiment =
     [top_control ''a'', top_control ''b'', local_control ''a'', local_control ''b'',
      local_control ''x'', ref_entry ''a'', local_control ''x'', top_control ''a'']" by (rule g)
    show "initialize_controls (\<lambda>tr c. Returns) c8_experiment =
       (Inr (), [top_control ''a'', top_control ''b'', local_control ''x''])" by (rule i)
    show "cleanup_controls (\<lambda>tr c. Returns) c8_experiment =
       (Inr (), [top_control ''a'', top_control ''b'', local_control ''x''])" by (rule c)
    show "distinct (map c_name [top_control ''a'', top_control ''b'', local_control ''x''])" by (rule d)
    show "find (\<lambda>d. c_name d = Some ''a'') (get_controls c8_experiment) = Some (top_control ''a'')" by (rule f)
  qed
qed

section \<open>Properties of \<^verbatim>\<open>validate_controls\<close>\<close>

text \<open>
  Claim C7 fails on the code. The names a \<open>ref\<close> is checked against are those of all
  controls of the experiment, not of the top-level ones: a \<open>ref\<close> to a control declared on
  another activity is accepted, although no top-level control has that name and
  \<open>get_context_controls\<close> resolves it to nothing.
\<close>

theorem validate_accepts_unresolved_ref:
  "validate_controls (\<lambda>c. Returns) c7_experiment = Inr ()
   \<and> get_controls c7_experiment = [local_control ''a'', ref_entry ''a'']
   \<and> resolve_ref ''a'' (top_level_controls c7_experiment) = Inr None
   \<and> get_context_controls c7_experiment (CtxMethod 1) = Some (Inr [ref_entry ''a''], c7_experiment)"
  by code_simp

end
